theory Spec2Isabelle
  imports Main "HOL-Library.Sublist"
begin

section \<open>Python text and values\<close>

text \<open>
  A Python \<open>str\<close> is modelled by its UTF-8 bytes, as a \<^typ>\<open>string\<close>. On ASCII
  text a byte is a character. The tests \<open>a in b\<close> of the sources compare whole
  characters, and UTF-8 keeps that relation on bytes.
\<close>

definition squote :: char where
  "squote = CHR 0x27"

definition newline :: char where
  "newline = CHR 0x0A"

text \<open>\<open>sub in s\<close> for two strings: \<open>sub\<close> occurs in \<open>s\<close> at some position.\<close>

fun str_contains :: "string \<Rightarrow> string \<Rightarrow> bool" where
  "str_contains sub [] = (sub = [])"
| "str_contains sub (c # cs) = (prefix sub (c # cs) \<or> str_contains sub cs)"

text \<open>
  The characters of a text one by one, as iterating over a \<open>str\<close> gives them: in
  UTF-8, a leading byte with the continuation bytes (0x80 to 0xBF) that follow it.
\<close>

definition is_continuation :: "char \<Rightarrow> bool" where
  "is_continuation c = (0x80 \<le> (of_char c :: nat) \<and> (of_char c :: nat) < 0xC0)"

function characters :: "string \<Rightarrow> string list" where
  "characters [] = []"
| "characters (c # cs) =
     (c # takeWhile is_continuation cs) # characters (dropWhile is_continuation cs)"
  by pat_completeness auto
termination
  by (relation "measure length") (auto simp: length_dropWhile_le less_Suc_eq_le)

text \<open>
  The code point of one character: the low bits of the leading byte (all seven of an
  ASCII byte, five, four or three of the leading byte of two, three or four bytes),
  then six bits of every continuation byte.
\<close>

definition codepoint :: "string \<Rightarrow> nat" where
  "codepoint ch =
     (case ch of
        [] \<Rightarrow> 0
      | b # bs \<Rightarrow>
          foldl (\<lambda>acc c. acc * 64 + (of_char c :: nat) mod 64)
            (if bs = [] then of_char b
             else if length bs = 1 then (of_char b :: nat) mod 32
             else if length bs = 2 then (of_char b :: nat) mod 16
             else (of_char b :: nat) mod 8)
            bs)"

text \<open>
  An exception object: its class name and the text \<open>str(err)\<close> gives for it.
\<close>

datatype py_exception = Exn (exn_class: string) (exn_message: string)

text \<open>
  \<open>repr\<close> of a string: quoted with \<open>'\<close> unless the text has a \<open>'\<close> and no \<open>"\<close>;
  the backslash, the quote and control characters are escaped. Bytes from 0x80 on
  belong to non-ASCII characters and are kept (they are taken to be printable).
\<close>

definition hex2 :: "nat \<Rightarrow> string" where
  "hex2 n = [''0123456789abcdef'' ! ((n div 16) mod 16), ''0123456789abcdef'' ! (n mod 16)]"

definition repr_char :: "char \<Rightarrow> char \<Rightarrow> string" where
  "repr_char q c =
     (if c = CHR 0x5C then [CHR 0x5C, CHR 0x5C]
      else if c = q then [CHR 0x5C, q]
      else if c = newline then [CHR 0x5C, CHR ''n'']
      else if c = CHR 0x0D then [CHR 0x5C, CHR ''r'']
      else if c = CHR 0x09 then [CHR 0x5C, CHR ''t'']
      else if (of_char c :: nat) < 0x20 \<or> (of_char c :: nat) = 0x7F
        then [CHR 0x5C, CHR ''x''] @ hex2 (of_char c)
      else [c])"

definition repr_str :: "string \<Rightarrow> string" where
  "repr_str s =
     (let q = (if squote \<in> set s \<and> CHR 0x22 \<notin> set s then CHR 0x22 else squote)
      in [q] @ concat (map (repr_char q) s) @ [q])"

fun join :: "string \<Rightarrow> string list \<Rightarrow> string" where
  "join sep [] = []"
| "join sep [x] = x"
| "join sep (x # y # ys) = x @ sep @ join sep (y # ys)"

definition repr_tuple :: "string list \<Rightarrow> string" where
  "repr_tuple xs =
     (case xs of
        [x] \<Rightarrow> ''('' @ repr_str x @ '',)''
      | _ \<Rightarrow> ''('' @ join '', '' (map repr_str xs) @ '')'')"

section \<open>The network option of the command line (cli.py)\<close>

definition NETWORKS :: "string list" where
  "NETWORKS = [''localhost'', ''goerli'', ''mainnet'']"

text \<open>
  \<open>_validate_network(_ctx, _param, value)\<close>: the two context arguments are not read.
  \<open>click.BadParameter\<close> is the raise of the last line.
\<close>

definition validate_network :: "string \<Rightarrow> py_exception + string" where
  "validate_network val =
     (if str_contains ''goerli'' val \<or> str_contains ''testnet'' val then Inr ''goerli''
      else if str_contains ''localhost'' val \<or> str_contains ''127.0.0.1'' val
        then Inr ''localhost''
      else if val \<in> set NETWORKS then Inr val
      else Inl (Exn ''BadParameter''
                  ([squote] @ val @ [squote] @ ''. Use one of '' @ repr_tuple NETWORKS)))"

section \<open>Extracting the transaction hash (call_or_invoke.py)\<close>

text \<open>
  \<open>re.search(r"Transaction hash: (0x[\da-f]{1,64})", string)\<close>, on a \<open>str\<close> and
  without the flag \<open>re.ASCII\<close>. The class \<open>[\da-f]\<close> has the letters a to f and
  every decimal digit: the ten ASCII digits and the decimal digits of the other
  scripts. Which characters beyond ASCII are decimal digits is a table of the Unicode
  database of the interpreter; it is the parameter \<open>nd\<close>, a predicate on code points.
\<close>

definition is_hex_char :: "char \<Rightarrow> bool" where
  "is_hex_char c = (c \<in> set ''0123456789abcdef'')"

definition is_class_char :: "(nat \<Rightarrow> bool) \<Rightarrow> string \<Rightarrow> bool" where
  "is_class_char nd ch =
     (if length ch = 1 then is_hex_char (hd ch)
      else 1 < length ch \<and> nd (codepoint ch))"

text \<open>
  ARABIC-INDIC DIGIT ZERO to NINE (U+0660 to U+0669), ten of the decimal digits
  beyond ASCII: a sample of the table for the concrete evaluations.
\<close>

definition arabic_indic_digit :: "nat \<Rightarrow> bool" where
  "arabic_indic_digit c = (0x660 \<le> c \<and> c \<le> 0x669)"

definition HASH_LABEL :: string where
  "HASH_LABEL = ''Transaction hash: ''"

text \<open>
  One attempt of the pattern at the start of \<open>s\<close>: the literal text, then the
  group, whose repetition is greedy and takes up to 64 characters of the class.
  Nothing follows the group in the pattern, so the longest run is the match.
\<close>

definition match_here :: "(nat \<Rightarrow> bool) \<Rightarrow> string \<Rightarrow> string option" where
  "match_here nd s =
     (if prefix (HASH_LABEL @ ''0x'') s
      then (let ds = take 64 (takeWhile (is_class_char nd)
                                (characters (drop (length (HASH_LABEL @ ''0x'')) s)))
            in if ds = [] then None else Some (''0x'' @ concat ds))
      else None)"

text \<open>
  \<open>re.search\<close> tries every start position from the left; the first match wins.
  The pattern begins with an ASCII letter, so no match starts inside a character.
\<close>

fun get_transaction_hash :: "(nat \<Rightarrow> bool) \<Rightarrow> string \<Rightarrow> string option" where
  "get_transaction_hash nd [] = match_here nd []"
| "get_transaction_hash nd (c # cs) =
     (case match_here nd (c # cs) of
        Some h \<Rightarrow> Some h
      | None \<Rightarrow> get_transaction_hash nd cs)"

section \<open>The dispatcher (call_or_invoke.py)\<close>

text \<open>
  What the executor returns: nothing, a text (the captured output), or a tuple of
  texts such as an address with a transaction hash.
\<close>

datatype exec_output = OutNone | OutText string | OutTuple "string list"

text \<open>
  What a call of the dispatcher or of a command returns: \<open>None\<close>, what the
  executor returned, or the object the status tracker gives.
\<close>

datatype 's retval = RNone | RStr string | RTuple "string list" | RStatus 's

definition returned :: "exec_output \<Rightarrow> 's retval" where
  "returned out =
     (case out of OutNone \<Rightarrow> RNone | OutText s \<Rightarrow> RStr s | OutTuple xs \<Rightarrow> RTuple xs)"

text \<open>Truth value of an output: \<open>None\<close>, the empty text and the empty tuple are false.\<close>

definition output_truthy :: "exec_output \<Rightarrow> bool" where
  "output_truthy out =
     (case out of OutNone \<Rightarrow> False | OutText s \<Rightarrow> s \<noteq> [] | OutTuple xs \<Rightarrow> xs \<noteq> [])"

text \<open>
  The \<open>logging\<close> module keeps the object it is given as the message of the record:
  an exception or a value. \<open>MsgStr\<close> is the record of a text.
\<close>

datatype level = ERROR | INFO

datatype 's logged = MsgExn py_exception | MsgVal "'s retval"

abbreviation MsgStr :: "string \<Rightarrow> 's logged" where
  "MsgStr s \<equiv> MsgVal (RStr s)"

text \<open>
  The state the calls act on: the log records emitted so far, and everything
  outside the process (the network, the files), of which nothing is assumed.
\<close>

record ('s, 'w) state =
  loglines :: "(level \<times> 's logged) list"
  outside :: 'w

definition logging_error :: "'s logged \<Rightarrow> ('s, 'w) state \<Rightarrow> ('s, 'w) state" where
  "logging_error msg \<sigma> = \<sigma>\<lparr>loglines := loglines \<sigma> @ [(ERROR, msg)]\<rparr>"

definition logging_info :: "'s logged \<Rightarrow> ('s, 'w) state \<Rightarrow> ('s, 'w) state" where
  "logging_info msg \<sigma> = \<sigma>\<lparr>loglines := loglines \<sigma> @ [(INFO, msg)]\<rparr>"

text \<open>The two attributes of an \<open>Account\<close> instance that the dispatcher reads.\<close>

record account =
  address :: string
  abi_path :: string

text \<open>\<open>contract\<close>: an address or an alias, or an \<open>Account\<close> instance.\<close>

datatype contract_ref = Identifier string | AccountInstance account

text \<open>The arguments \<open>execute_call\<close> is called with.\<close>

record call_args =
  arg_type :: string
  arg_network :: string
  arg_inputs :: "string list"
  arg_signature :: "(string \<times> string) option"
  arg_max_fee :: "string option"
  arg_query_flag :: "string option"
  arg_address :: string
  arg_abi :: string
  arg_method :: string

text \<open>
  The modules the dispatcher imports and whose code is not part of the sources at
  hand are parameters: \<open>deployments.load\<close> (the finite sequence of matches its
  generator yields, or the exception it raises before the first of them),
  \<open>execute_call\<close>, \<open>normalize_number\<close> and \<open>status\<close>. \<open>status_items\<close> is what
  iterating over a status object gives, each item as \<open>str\<close> formats it.
  \<open>decimal_digit\<close> is the table of the decimal digits beyond ASCII.
\<close>

record ('s, 'w) collaborators =
  deployments_load ::
    "string \<Rightarrow> string \<Rightarrow> ('s, 'w) state \<Rightarrow> py_exception + (string \<times> string) list"
  execute_call ::
    "call_args \<Rightarrow> ('s, 'w) state \<Rightarrow> (py_exception + exec_output) \<times> ('s, 'w) state"
  normalize_number :: "string option \<Rightarrow> py_exception + int"
  status ::
    "int \<Rightarrow> string \<Rightarrow> string option \<Rightarrow> ('s, 'w) state
       \<Rightarrow> (py_exception + 's) \<times> ('s, 'w) state"
  status_items :: "'s \<Rightarrow> py_exception + string list"
  decimal_digit :: "nat \<Rightarrow> bool"

text \<open>Truth value of an optional string: \<open>None\<close> and the empty string are false.\<close>

definition truthy :: "string option \<Rightarrow> bool" where
  "truthy x = (case x of None \<Rightarrow> False | Some s \<Rightarrow> s \<noteq> [])"

text \<open>\<open>next(it)\<close> on a generator: its first item, \<open>StopIteration\<close> when there is none.\<close>

definition next_item :: "'a list \<Rightarrow> py_exception + 'a" where
  "next_item xs = (case xs of [] \<Rightarrow> Inl (Exn ''StopIteration'' []) | x # _ \<Rightarrow> Inr x)"

text \<open>
  An exception that leaves the body of an \<open>async def\<close>: Python replaces a
  \<open>StopIteration\<close> by a \<open>RuntimeError\<close>, any other exception leaves as it is.
\<close>

definition coroutine_raise :: "py_exception \<Rightarrow> py_exception" where
  "coroutine_raise e =
     (if exn_class e = ''StopIteration''
      then Exn ''RuntimeError'' ''coroutine raised StopIteration''
      else e)"

definition MAX_FEE_ERROR :: string where
  "MAX_FEE_ERROR = ''max_fee must be bigger than 0.''"

text \<open>The text of the guided log record (lines 57 to 60), with its face character.\<close>

definition MAX_FEE_HINT :: string where
  "MAX_FEE_HINT =
     [newline] @ ''                '' @ [newline]
     @ [CHR 0xF0, CHR 0x9F, CHR 0x98, CHR 0xB0]
     @ '' Whoops, looks like max fee is missing. Try with:'' @ [newline, newline]
     @ ''                --max_fee=`MAX_FEE`'' @ [newline]
     @ ''                ''"

text \<open>Lines 36 to 40: the address and the ABI of the target.\<close>

definition resolve ::
  "('s, 'w) collaborators \<Rightarrow> contract_ref \<Rightarrow> string \<Rightarrow> ('s, 'w) state
     \<Rightarrow> py_exception + (string \<times> string)" where
  "resolve env contract network \<sigma> =
     (case contract of
        AccountInstance a \<Rightarrow> Inr (address a, abi_path a)
      | Identifier c \<Rightarrow>
          (case deployments_load env c network \<sigma> of
             Inl e \<Rightarrow> Inl e
           | Inr matches \<Rightarrow> next_item matches))"

text \<open>
  Line 70 on an output of the executor: \<open>re.search\<close> raises a \<open>TypeError\<close> when
  its argument is not a text.
\<close>

definition hash_of_output :: "(nat \<Rightarrow> bool) \<Rightarrow> exec_output \<Rightarrow> py_exception + string option" where
  "hash_of_output nd out =
     (case out of
        OutText s \<Rightarrow> Inr (get_transaction_hash nd s)
      | _ \<Rightarrow> Inl (Exn ''TypeError'' ''expected string or bytes-like object''))"

text \<open>
  Lines 42 to 73: the call of the executor inside \<open>try\<close>, the handler of
  \<open>BaseException\<close>, and the watch of an invoke.
\<close>

definition dispatch ::
  "('s, 'w) collaborators \<Rightarrow> string \<Rightarrow> string \<Rightarrow> string \<Rightarrow> string \<Rightarrow> string list \<Rightarrow> string
     \<Rightarrow> (string \<times> string) option \<Rightarrow> string option \<Rightarrow> string option \<Rightarrow> string option
     \<Rightarrow> ('s, 'w) state \<Rightarrow> (py_exception + 's retval) \<times> ('s, 'w) state" where
  "dispatch env addr abi type method params network signature max_fee query_flag watch_mode \<sigma> =
     (case execute_call env
             \<lparr>arg_type = type, arg_network = network, arg_inputs = params,
              arg_signature = signature, arg_max_fee = max_fee,
              arg_query_flag = query_flag, arg_address = addr, arg_abi = abi,
              arg_method = method\<rparr> \<sigma> of
        (Inl err, \<sigma>1) \<Rightarrow>
          (if str_contains MAX_FEE_ERROR (exn_message err)
           then (Inr RNone, logging_error (MsgStr MAX_FEE_HINT) \<sigma>1)
           else (Inr RNone, logging_error (MsgExn err) \<sigma>1))
      | (Inr output, \<sigma>1) \<Rightarrow>
          (if type \<noteq> ''call'' \<and> output_truthy output
           then
             (let \<sigma>2 = logging_info (MsgVal (returned output)) \<sigma>1 in
              if \<not> truthy query_flag \<and> truthy watch_mode
              then
                (case hash_of_output (decimal_digit env) output of
                   Inl e \<Rightarrow> (Inl (coroutine_raise e), \<sigma>2)
                 | Inr transaction_hash \<Rightarrow>
                     (case normalize_number env transaction_hash of
                        Inl e \<Rightarrow> (Inl (coroutine_raise e), \<sigma>2)
                      | Inr n \<Rightarrow>
                          (case status env n network watch_mode \<sigma>2 of
                             (Inl e, \<sigma>3) \<Rightarrow> (Inl (coroutine_raise e), \<sigma>3)
                           | (Inr st, \<sigma>3) \<Rightarrow> (Inr (RStatus st), \<sigma>3))))
              else (Inr (returned output), \<sigma>2))
           else (Inr (returned output), \<sigma>1)))"

definition call_or_invoke ::
  "('s, 'w) collaborators \<Rightarrow> contract_ref \<Rightarrow> string \<Rightarrow> string \<Rightarrow> string list \<Rightarrow> string
     \<Rightarrow> (string \<times> string) option \<Rightarrow> string option \<Rightarrow> string option \<Rightarrow> string option
     \<Rightarrow> ('s, 'w) state \<Rightarrow> (py_exception + 's retval) \<times> ('s, 'w) state" where
  "call_or_invoke env contract type method params network signature max_fee query_flag
       watch_mode \<sigma> =
     (case resolve env contract network \<sigma> of
        Inl e \<Rightarrow> (Inl (coroutine_raise e), \<sigma>)
      | Inr (addr, abi) \<Rightarrow>
          dispatch env addr abi type method params network signature max_fee query_flag
            watch_mode \<sigma>)"

section \<open>The commands invoke and call (cli.py)\<close>

text \<open>
  \<open>address, tx_hash = v\<close>: \<open>v\<close> has to be iterable and to give two items.
\<close>

definition unpack2 ::
  "('s, 'w) collaborators \<Rightarrow> 's retval \<Rightarrow> py_exception + (string \<times> string)" where
  "unpack2 env v =
     (case (case v of
              RNone \<Rightarrow> Inl (Exn ''TypeError'' ''cannot unpack non-iterable NoneType object'')
            | RStr s \<Rightarrow> Inr (characters s)
            | RTuple xs \<Rightarrow> Inr xs
            | RStatus st \<Rightarrow> status_items env st) of
        Inl e \<Rightarrow> Inl e
      | Inr [a, b] \<Rightarrow> Inr (a, b)
      | Inr [] \<Rightarrow> Inl (Exn ''ValueError'' ''not enough values to unpack (expected 2, got 0)'')
      | Inr [a] \<Rightarrow> Inl (Exn ''ValueError'' ''not enough values to unpack (expected 2, got 1)'')
      | Inr _ \<Rightarrow> Inl (Exn ''ValueError'' ''too many values to unpack (expected 2)''))"

text \<open>
  The body of the command \<open>invoke\<close> (lines 140 to 147). The result is an exception
  that reaches the command-line framework, or a normal return.
\<close>

definition invoke ::
  "('s, 'w) collaborators \<Rightarrow> string \<Rightarrow> string \<Rightarrow> string list \<Rightarrow> string \<Rightarrow> string option
     \<Rightarrow> ('s, 'w) state \<Rightarrow> (py_exception + unit) \<times> ('s, 'w) state" where
  "invoke env contract_name method params network max_fee \<sigma> =
     (case call_or_invoke env (Identifier contract_name) ''invoke'' method params network
             None max_fee None None \<sigma> of
        (Inl e, \<sigma>1) \<Rightarrow> (Inl (coroutine_raise e), \<sigma>1)
      | (Inr r, \<sigma>1) \<Rightarrow>
          (case unpack2 env r of
             Inl e \<Rightarrow> (Inl (coroutine_raise e), \<sigma>1)
           | Inr (addr, tx_hash) \<Rightarrow>
               (Inr (),
                logging_info (MsgStr (''Transaction hash: '' @ tx_hash))
                  (logging_info (MsgStr (''Contract address: '' @ addr))
                     (logging_info (MsgStr ''Invoke transaction was sent.'') \<sigma>1)))))"

text \<open>The body of the command \<open>call\<close> (lines 155 to 160).\<close>

definition call ::
  "('s, 'w) collaborators \<Rightarrow> string \<Rightarrow> string \<Rightarrow> string list \<Rightarrow> string
     \<Rightarrow> ('s, 'w) state \<Rightarrow> (py_exception + unit) \<times> ('s, 'w) state" where
  "call env contract_name method params network \<sigma> =
     (case call_or_invoke env (Identifier contract_name) ''call'' method params network
             None None None None \<sigma> of
        (Inl e, \<sigma>1) \<Rightarrow> (Inl (coroutine_raise e), \<sigma>1)
      | (Inr r, \<sigma>1) \<Rightarrow> (Inr (), logging_info (MsgVal r) \<sigma>1))"

section \<open>The gateway and feeder responses, and stringify (nile.common)\<close>

text \<open>
  The module \<open>nile.common\<close> is not among the sources; its tests are
  (tests/test_common.py). A response is the dictionary the tests use, with its
  keys in insertion order.
\<close>

type_synonym response = "(string \<times> string) list"

definition repr_dict :: "response \<Rightarrow> string" where
  "repr_dict r =
     ''{'' @ join '', '' (map (\<lambda>(k, v). repr_str k @ '': '' @ repr_str v) r) @ ''}''"

text \<open>\<open>StarkErrorCode.TRANSACTION_RECEIVED.name\<close>, the success code of the tests.\<close>

definition TRANSACTION_RECEIVED :: string where
  "TRANSACTION_RECEIVED = ''TRANSACTION_RECEIVED''"

definition transaction_rejected :: "response \<Rightarrow> py_exception" where
  "transaction_rejected r =
     Exn ''TransactionRejected''
       (''Transaction failed because:'' @ [newline] @ repr_dict r @ ''.'')"

text \<open>
  Modelled from the spec: \<open>get_gateway_response\<close> (the spec's submitTransaction),
  whose code is missing, applied to the response of the one round trip. If the
  code of the response equals the success code the response is returned; otherwise
  the call fails, with the whole raw response in the message.
\<close>

definition get_gateway_response :: "response \<Rightarrow> py_exception + response" where
  "get_gateway_response r =
     (if map_of r ''code'' = Some TRANSACTION_RECEIVED then Inr r
      else Inl (transaction_rejected r))"


text \<open>Nested ordered sequences with scalar leaves.\<close>

datatype 'a nested = Leaf 'a | Seq "'a nested list"

text \<open>\<open>str\<close> of an integer: its decimal digits, after a minus sign when negative.\<close>

fun str_nat :: "nat \<Rightarrow> string" where
  "str_nat n =
     (if n < 10 then [''0123456789'' ! n]
      else str_nat (n div 10) @ [''0123456789'' ! (n mod 10)])"

declare str_nat.simps [simp del]

definition str_int :: "int \<Rightarrow> string" where
  "str_int i = (if i < 0 then ''-'' @ str_nat (nat (- i)) else str_nat (nat i))"

text \<open>
  Modelled from the spec: \<open>stringify\<close>, whose code is missing. It keeps the nesting
  and converts every scalar leaf to its string form.
\<close>

fun stringify :: "int nested \<Rightarrow> string nested" where
  "stringify (Leaf n) = Leaf (str_int n)"
| "stringify (Seq xs) = Seq (map stringify xs)"

text \<open>The nesting of a sequence without its leaves, and its leaves from left to right.\<close>

fun shape :: "'a nested \<Rightarrow> unit nested" where
  "shape (Leaf x) = Leaf ()"
| "shape (Seq xs) = Seq (map shape xs)"

fun leaves :: "'a nested \<Rightarrow> 'a list" where
  "leaves (Leaf x) = [x]"
| "leaves (Seq xs) = concat (map leaves xs)"

section \<open>A sample environment\<close>

text \<open>
  A sample environment for the concrete evaluations: one deployment is registered
  under the alias "token"; the executor fails for the methods "transfer" (no max
  fee) and "broken", prints no hash for the method "silent", returns an address
  with a hash for the method "pair" and prints the usual three lines otherwise;
  \<open>normalize_number\<close> fails on \<open>None\<close> as \<open>int(None)\<close> does.
\<close>

definition sample_output :: string where
  "sample_output =
     ''Invoke transaction was sent.'' @ [newline] @ ''Contract address: 0x07''
     @ [newline] @ ''Transaction hash: 0x1f''"

definition sample_env :: "(string, unit) collaborators" where
  "sample_env =
     \<lparr>deployments_load =
        (\<lambda>c n \<sigma>. if c = ''token'' then Inr [(''0x07'', ''token.json''), (''0x09'', ''old.json'')]
                  else Inr []),
      execute_call =
        (\<lambda>a \<sigma>.
           if arg_method a = ''transfer'' \<and> arg_max_fee a = None
             then (Inl (Exn ''AssertionError'' ''max_fee must be bigger than 0.''), \<sigma>)
           else if arg_method a = ''broken''
             then (Inl (Exn ''KeyError'' ''broken''), \<sigma>)
           else if arg_method a = ''silent''
             then (Inr (OutText ''Invoke transaction was sent.''), \<sigma>)
           else if arg_method a = ''pair''
             then (Inr (OutTuple [''0x07'', ''0x1f'']), \<sigma>)
           else (Inr (OutText sample_output), \<sigma>)),
      normalize_number =
        (\<lambda>h. case h of
               None \<Rightarrow> Inl (Exn ''TypeError'' ''int() argument must be a string'')
             | Some s \<Rightarrow> Inr 31),
      status = (\<lambda>n net mode \<sigma>. (Inr ''ACCEPTED_ON_L2'', \<sigma>)),
      status_items = (\<lambda>st. Inl (Exn ''TypeError'' ''cannot unpack non-iterable object'')),
      decimal_digit = arabic_indic_digit\<rparr>"

definition sample_state :: "(string, unit) state" where
  "sample_state = \<lparr>loglines = [], outside = ()\<rparr>"

section \<open>Text helpers\<close>

lemma str_contains_iff: "str_contains sub s \<longleftrightarrow> (\<exists>pre post. s = pre @ sub @ post)"
proof (induction s)
  case Nil
  then show ?case by auto
next
  case (Cons c cs)
  show ?case
  proof
    assume "str_contains sub (c # cs)"
    then consider "prefix sub (c # cs)" | "str_contains sub cs" by auto
    then show "\<exists>pre post. c # cs = pre @ sub @ post"
    proof cases
      case 1
      then obtain post where "c # cs = sub @ post" by (auto simp: prefix_def)
      then have "c # cs = [] @ sub @ post" by simp
      then show ?thesis by blast
    next
      case 2
      with Cons.IH obtain pre post where "cs = pre @ sub @ post" by blast
      then have "c # cs = (c # pre) @ sub @ post" by simp
      then show ?thesis by blast
    qed
  next
    assume "\<exists>pre post. c # cs = pre @ sub @ post"
    then obtain pre post where eq: "c # cs = pre @ sub @ post" by blast
    show "str_contains sub (c # cs)"
    proof (cases pre)
      case Nil
      with eq have "prefix sub (c # cs)" by (simp add: prefix_def)
      then show ?thesis by simp
    next
      case (Cons p ps)
      with eq have "cs = ps @ sub @ post" by simp
      with Cons.IH have "str_contains sub cs" by blast
      then show ?thesis by simp
    qed
  qed
qed

section \<open>The network option\<close>

text \<open>
  C9: for every string given to the network option, validation returns "goerli"
  whenever the value contains "goerli" or "testnet"; otherwise "localhost" whenever
  it contains "localhost" or "127.0.0.1"; otherwise the value itself if it is one of
  the three names of \<open>NETWORKS\<close>; and every other value raises a parameter error.
\<close>

theorem validate_network_cases:
  "(str_contains ''goerli'' v \<or> str_contains ''testnet'' v
      \<longrightarrow> validate_network v = Inr ''goerli'')
   \<and> (\<not> (str_contains ''goerli'' v \<or> str_contains ''testnet'' v)
        \<and> (str_contains ''localhost'' v \<or> str_contains ''127.0.0.1'' v)
      \<longrightarrow> validate_network v = Inr ''localhost'')
   \<and> (\<not> (str_contains ''goerli'' v \<or> str_contains ''testnet'' v)
        \<and> \<not> (str_contains ''localhost'' v \<or> str_contains ''127.0.0.1'' v)
        \<and> v \<in> set NETWORKS
      \<longrightarrow> validate_network v = Inr v)
   \<and> (\<not> (str_contains ''goerli'' v \<or> str_contains ''testnet'' v)
        \<and> \<not> (str_contains ''localhost'' v \<or> str_contains ''127.0.0.1'' v)
        \<and> v \<notin> set NETWORKS
      \<longrightarrow> (\<exists>msg. validate_network v = Inl (Exn ''BadParameter'' msg)))"
  by (simp add: validate_network_def)

theorem validate_network_cases_witness:
  "str_contains ''testnet'' ''alpha-testnet''
   \<and> validate_network ''alpha-testnet'' = Inr ''goerli''
   \<and> \<not> (str_contains ''goerli'' ''http://127.0.0.1:5050''
          \<or> str_contains ''testnet'' ''http://127.0.0.1:5050'')
   \<and> str_contains ''127.0.0.1'' ''http://127.0.0.1:5050''
   \<and> validate_network ''http://127.0.0.1:5050'' = Inr ''localhost''
   \<and> ''mainnet'' \<in> set NETWORKS
   \<and> validate_network ''mainnet'' = Inr ''mainnet''
   \<and> ''sepolia'' \<notin> set NETWORKS
   \<and> (\<exists>msg. validate_network ''sepolia'' = Inl (Exn ''BadParameter'' msg))"
  using validate_network_cases [of "''alpha-testnet''"]
    validate_network_cases [of "''http://127.0.0.1:5050''"]
    validate_network_cases [of "''mainnet''"]
    validate_network_cases [of "''sepolia''"]
  by (simp add: NETWORKS_def)

section \<open>The extraction of the hash\<close>

lemma concat_characters: "concat (characters s) = s"
  by (induction s rule: characters.induct) simp_all

lemma characters_Nil_iff: "characters s = [] \<longleftrightarrow> s = []"
  by (cases s) simp_all

lemma drop_characters:
  "\<exists>t. drop k (characters s) = characters t \<and> s = concat (take k (characters s)) @ t"
proof (induction k arbitrary: s)
  case 0
  show ?case by (rule exI [of _ s]) simp
next
  case (Suc k)
  show ?case
  proof (cases s)
    case Nil
    show ?thesis unfolding Nil by (rule exI [of _ "[]"]) simp
  next
    case (Cons c cs)
    define r where "r = dropWhile is_continuation cs"
    from Suc.IH [of r] obtain t where
      t: "drop k (characters r) = characters t" and r: "r = concat (take k (characters r)) @ t"
      by (elim exE conjE)
    have "cs = takeWhile is_continuation cs @ r"
      by (simp add: r_def)
    then have "c # cs = (c # takeWhile is_continuation cs) @ concat (take k (characters r)) @ t"
      using r by simp
    then have "s = concat (take (Suc k) (characters s)) @ t"
      by (simp add: Cons r_def)
    moreover have "drop (Suc k) (characters s) = characters t"
      using t by (simp add: Cons r_def)
    ultimately show ?thesis
      by (intro exI [of _ t] conjI)
  qed
qed

lemma match_here_Some:
  assumes "match_here nd s = Some h"
  shows "\<exists>ds post. s = HASH_LABEL @ h @ post \<and> h = ''0x'' @ concat ds \<and> ds \<noteq> []
           \<and> length ds \<le> 64 \<and> (\<forall>d\<in>set ds. is_class_char nd d)
           \<and> characters (concat ds @ post) = ds @ characters post
           \<and> (length ds = 64 \<or> post = [] \<or> \<not> is_class_char nd (hd (characters post)))"
proof -
  define rest where "rest = drop (length (HASH_LABEL @ ''0x'')) s"
  define chs where "chs = characters rest"
  define run where "run = takeWhile (is_class_char nd) chs"
  define ds where "ds = take 64 run"
  from assms have pre: "prefix (HASH_LABEL @ ''0x'') s"
    by (auto simp: match_here_def split: if_splits)
  then have s: "s = (HASH_LABEL @ ''0x'') @ rest"
    unfolding rest_def by (auto simp: prefix_def)
  from assms pre have ne: "ds \<noteq> []" and h: "h = ''0x'' @ concat ds"
    by (auto simp: match_here_def Let_def ds_def run_def chs_def rest_def split: if_splits)
  have "run = take (length run) chs"
    unfolding run_def by (rule takeWhile_eq_take)
  then have "ds = take 64 (take (length run) chs)"
    by (simp add: ds_def)
  then have ds_take: "ds = take (min 64 (length run)) chs"
    by simp
  have "length ds = min 64 (length run)"
    by (simp add: ds_def min.commute)
  with ds_take have ds_k: "ds = take (length ds) chs"
    by simp
  from drop_characters [of "length ds" rest] obtain post where
    dr: "drop (length ds) chs = characters post"
    and rest: "rest = concat (take (length ds) chs) @ post"
    unfolding chs_def by (elim exE conjE)
  from rest ds_k have rest': "rest = concat ds @ post"
    by simp
  have "chs = take (length ds) chs @ drop (length ds) chs"
    by simp
  then have "chs = ds @ characters post"
    using ds_k dr by simp
  then have split: "characters (concat ds @ post) = ds @ characters post"
    using rest' by (simp add: chs_def)
  have hex: "\<forall>d\<in>set ds. is_class_char nd d"
    unfolding ds_def run_def by (auto dest: in_set_takeD set_takeWhileD)
  have len: "length ds \<le> 64"
    by (simp add: ds_def)
  have greedy: "length ds = 64 \<or> post = [] \<or> \<not> is_class_char nd (hd (characters post))"
  proof (cases "length run \<le> 64")
    case True
    then have "ds = run" by (simp add: ds_def)
    then have "run @ characters post = ds @ characters post" by (simp only:)
    also have "\<dots> = chs" using \<open>chs = ds @ characters post\<close> by (rule sym)
    also have "\<dots> = run @ dropWhile (is_class_char nd) chs"
      unfolding run_def by (rule takeWhile_dropWhile_id [symmetric])
    finally have dw: "characters post = dropWhile (is_class_char nd) chs"
      by (simp only: same_append_eq)
    show ?thesis
    proof (cases "post = []")
      case True
      then show ?thesis by simp
    next
      case False
      then have "characters post \<noteq> []" by (simp add: characters_Nil_iff)
      with dw have "dropWhile (is_class_char nd) chs \<noteq> []" by simp
      then have "\<not> is_class_char nd (hd (dropWhile (is_class_char nd) chs))"
        by (rule hd_dropWhile)
      with dw show ?thesis by simp
    qed
  next
    case False
    then show ?thesis by (simp add: ds_def)
  qed
  from s rest' h have "s = HASH_LABEL @ h @ post" by simp
  with h ne len hex split greedy show ?thesis
    by (intro exI [of _ ds] exI [of _ post] conjI)
qed

lemma match_here_None:
  "match_here nd s = None
     \<longleftrightarrow> \<not> (\<exists>rest. s = HASH_LABEL @ ''0x'' @ rest \<and> rest \<noteq> []
              \<and> is_class_char nd (hd (characters rest)))"
proof
  assume none: "match_here nd s = None"
  show "\<not> (\<exists>rest. s = HASH_LABEL @ ''0x'' @ rest \<and> rest \<noteq> []
              \<and> is_class_char nd (hd (characters rest)))"
  proof
    assume "\<exists>rest. s = HASH_LABEL @ ''0x'' @ rest \<and> rest \<noteq> []
              \<and> is_class_char nd (hd (characters rest))"
    then obtain rest where s: "s = (HASH_LABEL @ ''0x'') @ rest" and ne: "rest \<noteq> []"
      and d: "is_class_char nd (hd (characters rest))"
      by auto
    from ne obtain ch chs where chs: "characters rest = ch # chs"
      by (cases "characters rest") (simp_all add: characters_Nil_iff)
    have "prefix (HASH_LABEL @ ''0x'') s"
      unfolding s by (rule prefixI) (rule refl)
    moreover have "drop (length (HASH_LABEL @ ''0x'')) s = rest"
      unfolding s by simp
    ultimately have "match_here nd s \<noteq> None"
      using d chs by (simp add: match_here_def Let_def)
    with none show False by contradiction
  qed
next
  assume no: "\<not> (\<exists>rest. s = HASH_LABEL @ ''0x'' @ rest \<and> rest \<noteq> []
              \<and> is_class_char nd (hd (characters rest)))"
  show "match_here nd s = None"
  proof (rule ccontr)
    assume "match_here nd s \<noteq> None"
    then obtain h where "match_here nd s = Some h" by auto
    from match_here_Some [OF this] obtain ds post where
      s: "s = HASH_LABEL @ h @ post" and h: "h = ''0x'' @ concat ds" and ne: "ds \<noteq> []"
      and hex: "\<forall>d\<in>set ds. is_class_char nd d"
      and split: "characters (concat ds @ post) = ds @ characters post"
      by (elim exE conjE)
    from ne obtain d ds' where ds: "ds = d # ds'" by (cases ds) auto
    from split ds have hd: "hd (characters (concat ds @ post)) = d" by simp
    from split ne have "characters (concat ds @ post) \<noteq> []" by simp
    then have ne': "concat ds @ post \<noteq> []" by (simp only: characters_Nil_iff not_False_eq_True)
    from s h have "s = HASH_LABEL @ ''0x'' @ (concat ds @ post)" by simp
    moreover from hex ds hd have "is_class_char nd (hd (characters (concat ds @ post)))" by simp
    ultimately have "\<exists>rest. s = HASH_LABEL @ ''0x'' @ rest \<and> rest \<noteq> []
              \<and> is_class_char nd (hd (characters rest))"
      using ne' by (intro exI [of _ "concat ds @ post"] conjI)
    with no show False by (rule notE)
  qed
qed

lemma search_None:
  "get_transaction_hash nd s = None \<longleftrightarrow> (\<forall>pre t. s = pre @ t \<longrightarrow> match_here nd t = None)"
proof (induction s)
  case Nil
  then show ?case by simp
next
  case (Cons c cs)
  show ?case
  proof
    assume none: "get_transaction_hash nd (c # cs) = None"
    then have here: "match_here nd (c # cs) = None"
      and later: "get_transaction_hash nd cs = None"
      by (auto split: option.splits)
    show "\<forall>pre t. c # cs = pre @ t \<longrightarrow> match_here nd t = None"
    proof (intro allI impI)
      fix pre t
      assume eq: "c # cs = pre @ t"
      show "match_here nd t = None"
      proof (cases pre)
        case Nil
        with eq here show ?thesis by simp
      next
        case (Cons p ps)
        with eq have "cs = ps @ t" by simp
        with later Cons.IH show ?thesis by blast
      qed
    qed
  next
    assume all: "\<forall>pre t. c # cs = pre @ t \<longrightarrow> match_here nd t = None"
    then have here: "match_here nd (c # cs) = None" by simp
    have "\<forall>pre t. cs = pre @ t \<longrightarrow> match_here nd t = None"
    proof (intro allI impI)
      fix pre t
      assume "cs = pre @ t"
      then have "c # cs = (c # pre) @ t" by simp
      with all show "match_here nd t = None" by blast
    qed
    with Cons.IH have "get_transaction_hash nd cs = None" by blast
    with here show "get_transaction_hash nd (c # cs) = None" by simp
  qed
qed

lemma search_Some:
  assumes "get_transaction_hash nd s = Some h"
  shows "\<exists>pre t. s = pre @ t \<and> match_here nd t = Some h
           \<and> (\<forall>pre' t'. s = pre' @ t' \<and> length pre' < length pre
                 \<longrightarrow> match_here nd t' = None)"
  using assms
proof (induction s)
  case Nil
  then have m: "match_here nd [] = Some h" by simp
  show ?case
    by (rule exI [of _ "[]"], rule exI [of _ "[]"]) (simp add: m)
next
  case (Cons c cs)
  show ?case
  proof (cases "match_here nd (c # cs)")
    case (Some h')
    with Cons.prems have m: "match_here nd (c # cs) = Some h" by simp
    show ?thesis
      by (rule exI [of _ "[]"], rule exI [of _ "c # cs"]) (simp add: m)
  next
    case None
    with Cons.prems have "get_transaction_hash nd cs = Some h" by simp
    from Cons.IH [OF this] obtain pre t where
      cs: "cs = pre @ t" and m: "match_here nd t = Some h"
      and first: "\<forall>pre' t'. cs = pre' @ t' \<and> length pre' < length pre
          \<longrightarrow> match_here nd t' = None"
      by (elim exE conjE)
    have earlier: "\<forall>pre' t'. c # cs = pre' @ t' \<and> length pre' < length (c # pre)
        \<longrightarrow> match_here nd t' = None"
    proof (intro allI impI)
      fix pre' t'
      assume a: "c # cs = pre' @ t' \<and> length pre' < length (c # pre)"
      show "match_here nd t' = None"
      proof (cases pre')
        case Nil
        with a None show ?thesis by simp
      next
        case (Cons p ps)
        with a have "cs = ps @ t' \<and> length ps < length pre" by simp
        then show ?thesis by (rule first [rule_format])
      qed
    qed
    from cs have "c # cs = (c # pre) @ t" by simp
    with m earlier show ?thesis
      by (intro exI [of _ "c # pre"] exI [of _ t] conjI)
  qed
qed

lemma class_single: "is_class_char nd [c] = (c \<in> set ''0123456789abcdef'')"
  by (simp add: is_class_char_def is_hex_char_def)

lemma class_several: "1 < length ch \<Longrightarrow> is_class_char nd ch = nd (codepoint ch)"
  by (simp add: is_class_char_def)

lemma upper_not_continuation: "c \<in> set ''ABCDEF'' \<Longrightarrow> \<not> is_continuation c"
  by (auto simp: is_continuation_def)

lemma upper_first_character:
  assumes "set (c # cs) \<subseteq> set ''ABCDEF''"
  shows "hd (characters (c # cs)) = [c]"
proof -
  have "takeWhile is_continuation cs = []"
  proof (cases cs)
    case Nil
    then show ?thesis by simp
  next
    case (Cons d ds)
    with assms have "d \<in> set ''ABCDEF''" by simp
    then have "\<not> is_continuation d" by (rule upper_not_continuation)
    with Cons show ?thesis by simp
  qed
  then show ?thesis by simp
qed

lemma match_here_needs_T: "CHR ''T'' \<noteq> c \<Longrightarrow> match_here nd (c # cs) = None"
  by (simp add: match_here_def HASH_LABEL_def)

lemma match_here_Nil: "match_here nd [] = None"
  by (simp add: match_here_def HASH_LABEL_def)

lemma search_needs_T: "CHR ''T'' \<notin> set s \<Longrightarrow> get_transaction_hash nd s = None"
  by (induction s) (simp_all add: match_here_Nil match_here_needs_T)

lemma search_upper:
  assumes "set u \<subseteq> set ''ABCDEF''"
  shows "get_transaction_hash nd (HASH_LABEL @ ''0x'' @ u) = None"
proof -
  have here: "match_here nd (HASH_LABEL @ ''0x'' @ u) = None"
  proof (subst match_here_None, rule notI)
    assume "\<exists>rest. HASH_LABEL @ ''0x'' @ u = HASH_LABEL @ ''0x'' @ rest \<and> rest \<noteq> []
        \<and> is_class_char nd (hd (characters rest))"
    then have ne: "u \<noteq> []" and cls: "is_class_char nd (hd (characters u))" by auto
    from ne obtain c cs where u: "u = c # cs" by (cases u) auto
    with assms have "hd (characters u) = [c]" by (simp only: upper_first_character)
    with cls have "c \<in> set ''0123456789abcdef''" by (simp add: class_single)
    moreover from assms u have "c \<in> set ''ABCDEF''" by simp
    ultimately show False by auto
  qed
  have "CHR ''T'' \<notin> set (''ransaction hash: 0x'' @ u)"
    using assms by auto
  then have later: "get_transaction_hash nd (''ransaction hash: 0x'' @ u) = None"
    by (rule search_needs_T)
  have split: "HASH_LABEL @ ''0x'' @ u = CHR ''T'' # (''ransaction hash: 0x'' @ u)"
    by (simp add: HASH_LABEL_def)
  show ?thesis
    using here later unfolding split by simp
qed

lemma search_cut_at_upper: "get_transaction_hash nd ''Transaction hash: 0x04D2E0F1'' = Some ''0x04''"
  by (simp add: match_here_def HASH_LABEL_def is_class_char_def is_hex_char_def
      is_continuation_def Let_def)

lemma search_None_iff:
  "get_transaction_hash nd s = None
     \<longleftrightarrow> \<not> (\<exists>pre rest. s = pre @ HASH_LABEL @ ''0x'' @ rest \<and> rest \<noteq> []
              \<and> is_class_char nd (hd (characters rest)))"
proof -
  have "get_transaction_hash nd s = None
      \<longleftrightarrow> (\<forall>pre t. s = pre @ t
            \<longrightarrow> \<not> (\<exists>rest. t = HASH_LABEL @ ''0x'' @ rest \<and> rest \<noteq> []
                     \<and> is_class_char nd (hd (characters rest))))"
    by (simp only: search_None match_here_None)
  also have "\<dots> \<longleftrightarrow> \<not> (\<exists>pre rest. s = pre @ HASH_LABEL @ ''0x'' @ rest \<and> rest \<noteq> []
              \<and> is_class_char nd (hd (characters rest)))"
    by auto
  finally show ?thesis .
qed

lemma search_Some_shape:
  assumes "get_transaction_hash nd s = Some h"
  shows "\<exists>pre ds post. s = pre @ HASH_LABEL @ h @ post \<and> h = ''0x'' @ concat ds
           \<and> 1 \<le> length ds \<and> length ds \<le> 64 \<and> (\<forall>d\<in>set ds. is_class_char nd d)
           \<and> characters (concat ds @ post) = ds @ characters post
           \<and> (length ds = 64 \<or> post = [] \<or> \<not> is_class_char nd (hd (characters post)))
           \<and> (\<forall>pre' rest'. s = pre' @ HASH_LABEL @ ''0x'' @ rest' \<and> rest' \<noteq> []
                   \<and> is_class_char nd (hd (characters rest'))
                 \<longrightarrow> length pre \<le> length pre')"
proof -
  from search_Some [OF assms] obtain pre t where
    s: "s = pre @ t" and m: "match_here nd t = Some h"
    and first: "\<forall>pre' t'. s = pre' @ t' \<and> length pre' < length pre
        \<longrightarrow> match_here nd t' = None"
    by (elim exE conjE)
  from match_here_Some [OF m] obtain ds post where
    t: "t = HASH_LABEL @ h @ post" and h: "h = ''0x'' @ concat ds" and ne: "ds \<noteq> []"
    and len: "length ds \<le> 64" and hex: "\<forall>d\<in>set ds. is_class_char nd d"
    and split: "characters (concat ds @ post) = ds @ characters post"
    and greedy: "length ds = 64 \<or> post = [] \<or> \<not> is_class_char nd (hd (characters post))"
    by (elim exE conjE)
  have leftmost: "\<forall>pre' rest'. s = pre' @ HASH_LABEL @ ''0x'' @ rest' \<and> rest' \<noteq> []
        \<and> is_class_char nd (hd (characters rest'))
      \<longrightarrow> length pre \<le> length pre'"
  proof (intro allI impI)
    fix pre' rest'
    assume a: "s = pre' @ HASH_LABEL @ ''0x'' @ rest' \<and> rest' \<noteq> []
        \<and> is_class_char nd (hd (characters rest'))"
    then have "\<exists>rest. HASH_LABEL @ ''0x'' @ rest' = HASH_LABEL @ ''0x'' @ rest \<and> rest \<noteq> []
        \<and> is_class_char nd (hd (characters rest))"
      by (intro exI [of _ rest']) simp
    then have found: "match_here nd (HASH_LABEL @ ''0x'' @ rest') \<noteq> None"
      by (simp only: match_here_None not_not)
    show "length pre \<le> length pre'"
    proof (rule ccontr)
      assume "\<not> length pre \<le> length pre'"
      with a have "s = pre' @ (HASH_LABEL @ ''0x'' @ rest') \<and> length pre' < length pre"
        by simp
      then have "match_here nd (HASH_LABEL @ ''0x'' @ rest') = None"
        by (rule first [rule_format])
      with found show False by contradiction
    qed
  qed
  from ne have one: "1 \<le> length ds" by (cases ds) simp_all
  from s t have "s = pre @ HASH_LABEL @ h @ post" by simp
  with h one len hex split greedy leftmost show ?thesis
    by (intro exI [of _ pre] exI [of _ ds] exI [of _ post] conjI)
qed

text \<open>
  C10, amended: for every input text the extraction returns a value. It is \<open>None\<close>
  exactly when the text has no place where "Transaction hash: 0x" is followed by a
  character of the class; otherwise it is "0x" with the greedy run of 1 to 64
  characters of the class at the first such place. The class has the lowercase
  letters a to f and every decimal digit, the ten ASCII digits and the decimal
  digits of other scripts. Uppercase letters are not in the class: the run stops
  before the first of them, so a hash that begins with one is not extracted and a
  hash that has one later is extracted cut (0x04D2E0F1 gives 0x04).
\<close>

theorem get_transaction_hash_spec:
  "(get_transaction_hash nd s = None
      \<longleftrightarrow> \<not> (\<exists>pre rest. s = pre @ HASH_LABEL @ ''0x'' @ rest \<and> rest \<noteq> []
               \<and> is_class_char nd (hd (characters rest))))
   \<and> (\<forall>h. get_transaction_hash nd s = Some h \<longrightarrow>
         (\<exists>pre ds post. s = pre @ HASH_LABEL @ h @ post \<and> h = ''0x'' @ concat ds
            \<and> 1 \<le> length ds \<and> length ds \<le> 64 \<and> (\<forall>d\<in>set ds. is_class_char nd d)
            \<and> characters (concat ds @ post) = ds @ characters post
            \<and> (length ds = 64 \<or> post = [] \<or> \<not> is_class_char nd (hd (characters post)))
            \<and> (\<forall>pre' rest'. s = pre' @ HASH_LABEL @ ''0x'' @ rest' \<and> rest' \<noteq> []
                    \<and> is_class_char nd (hd (characters rest'))
                  \<longrightarrow> length pre \<le> length pre')))
   \<and> (\<forall>c. is_class_char nd [c] = (c \<in> set ''0123456789abcdef''))
   \<and> (\<forall>ch. 1 < length ch \<longrightarrow> is_class_char nd ch = nd (codepoint ch))
   \<and> (set u \<subseteq> set ''ABCDEF'' \<longrightarrow> get_transaction_hash nd (HASH_LABEL @ ''0x'' @ u) = None)
   \<and> get_transaction_hash nd ''Transaction hash: 0x04D2E0F1'' = Some ''0x04''"
proof (intro conjI allI impI)
  show "get_transaction_hash nd s = None
      \<longleftrightarrow> \<not> (\<exists>pre rest. s = pre @ HASH_LABEL @ ''0x'' @ rest \<and> rest \<noteq> []
               \<and> is_class_char nd (hd (characters rest)))"
    by (rule search_None_iff)
next
  fix h
  assume "get_transaction_hash nd s = Some h"
  then show "\<exists>pre ds post. s = pre @ HASH_LABEL @ h @ post \<and> h = ''0x'' @ concat ds
            \<and> 1 \<le> length ds \<and> length ds \<le> 64 \<and> (\<forall>d\<in>set ds. is_class_char nd d)
            \<and> characters (concat ds @ post) = ds @ characters post
            \<and> (length ds = 64 \<or> post = [] \<or> \<not> is_class_char nd (hd (characters post)))
            \<and> (\<forall>pre' rest'. s = pre' @ HASH_LABEL @ ''0x'' @ rest' \<and> rest' \<noteq> []
                    \<and> is_class_char nd (hd (characters rest'))
                  \<longrightarrow> length pre \<le> length pre')"
    by (rule search_Some_shape)
next
  fix c
  show "is_class_char nd [c] = (c \<in> set ''0123456789abcdef'')" by (rule class_single)
next
  fix ch :: string
  assume "1 < length ch"
  then show "is_class_char nd ch = nd (codepoint ch)" by (rule class_several)
next
  assume "set u \<subseteq> set ''ABCDEF''"
  then show "get_transaction_hash nd (HASH_LABEL @ ''0x'' @ u) = None" by (rule search_upper)
next
  show "get_transaction_hash nd ''Transaction hash: 0x04D2E0F1'' = Some ''0x04''"
    by (rule search_cut_at_upper)
qed

theorem get_transaction_hash_spec_witness:
  "get_transaction_hash arabic_indic_digit ''ok Transaction hash: 0x1f.'' = Some ''0x1f''
   \<and> (\<exists>pre ds post. ''ok Transaction hash: 0x1f.'' = pre @ HASH_LABEL @ ''0x1f'' @ post
          \<and> ''0x1f'' = ''0x'' @ concat ds
          \<and> 1 \<le> length ds \<and> length ds \<le> 64 \<and> (\<forall>d\<in>set ds. is_class_char arabic_indic_digit d)
          \<and> characters (concat ds @ post) = ds @ characters post
          \<and> (length ds = 64 \<or> post = []
               \<or> \<not> is_class_char arabic_indic_digit (hd (characters post)))
          \<and> (\<forall>pre' rest'.
                ''ok Transaction hash: 0x1f.'' = pre' @ HASH_LABEL @ ''0x'' @ rest'
                \<and> rest' \<noteq> [] \<and> is_class_char arabic_indic_digit (hd (characters rest'))
                \<longrightarrow> length pre \<le> length pre'))
   \<and> get_transaction_hash arabic_indic_digit ''Transaction hash: none'' = None
   \<and> \<not> (\<exists>pre rest. ''Transaction hash: none'' = pre @ HASH_LABEL @ ''0x'' @ rest
          \<and> rest \<noteq> [] \<and> is_class_char arabic_indic_digit (hd (characters rest)))
   \<and> 1 < length [CHR 0xD9, CHR 0xA3]
   \<and> is_class_char arabic_indic_digit [CHR 0xD9, CHR 0xA3]
       = arabic_indic_digit (codepoint [CHR 0xD9, CHR 0xA3])
   \<and> set ''AB'' \<subseteq> set ''ABCDEF''
   \<and> get_transaction_hash arabic_indic_digit (HASH_LABEL @ ''0x'' @ ''AB'') = None"
proof -
  have found: "get_transaction_hash arabic_indic_digit ''ok Transaction hash: 0x1f.''
      = Some ''0x1f''"
    by (simp add: match_here_def HASH_LABEL_def is_class_char_def is_hex_char_def
        is_continuation_def Let_def)
  have missing: "get_transaction_hash arabic_indic_digit ''Transaction hash: none'' = None"
    by (simp add: match_here_def HASH_LABEL_def is_class_char_def is_hex_char_def
        is_continuation_def Let_def)
  have two: "1 < length [CHR 0xD9, CHR 0xA3]" and sub: "set ''AB'' \<subseteq> set ''ABCDEF''"
    by simp_all
  note at_found =
    get_transaction_hash_spec [of arabic_indic_digit "''ok Transaction hash: 0x1f.''" "''AB''"]
  note at_missing =
    get_transaction_hash_spec [of arabic_indic_digit "''Transaction hash: none''" "''AB''"]
  note shape = at_found [THEN conjunct2, THEN conjunct1]
  note several = at_found [THEN conjunct2, THEN conjunct2, THEN conjunct2, THEN conjunct1]
  note upper_none =
    at_found [THEN conjunct2, THEN conjunct2, THEN conjunct2, THEN conjunct2, THEN conjunct1]
  note none_iff = at_missing [THEN conjunct1]
  from shape [rule_format, OF found] none_iff [THEN iffD1, OF missing]
    several [rule_format, OF two] upper_none [rule_format, OF sub] found missing two sub
  show ?thesis
    by (intro conjI)
qed

text \<open>
  C10 as stated fails in two places. With the Arabic-Indic digit three (U+0663)
  after "0x" the extraction returns that digit, which is no hexadecimal digit, where
  the claim gives \<open>None\<close>. A hash written with uppercase digits after lowercase ones
  is extracted, cut before the first uppercase letter.
\<close>

theorem get_transaction_hash_counterexample:
  "get_transaction_hash arabic_indic_digit (''Transaction hash: 0x'' @ [CHR 0xD9, CHR 0xA3])
     = Some (''0x'' @ [CHR 0xD9, CHR 0xA3])
   \<and> \<not> is_hex_char (CHR 0xD9)
   \<and> get_transaction_hash arabic_indic_digit ''Transaction hash: 0x04D2E0F1'' = Some ''0x04''"
  by (simp add: match_here_def HASH_LABEL_def is_class_char_def is_hex_char_def
      is_continuation_def codepoint_def arabic_indic_digit_def Let_def)

section \<open>The dispatcher and the commands\<close>

text \<open>
  C1: whenever the executor fails during the dispatch step, the dispatcher returns
  \<open>None\<close> and the failure does not reach the caller. It adds exactly one record to
  the log: the guided text when the message of the failure contains the text about
  the missing max fee, the failure itself otherwise.
\<close>

theorem executor_failure_is_logged:
  assumes "resolve env contract network \<sigma> = Inr (addr, abi)"
    and "execute_call env
           \<lparr>arg_type = type, arg_network = network, arg_inputs = params,
            arg_signature = signature, arg_max_fee = max_fee,
            arg_query_flag = query_flag, arg_address = addr, arg_abi = abi,
            arg_method = method\<rparr> \<sigma> = (Inl err, \<sigma>1)"
  shows "call_or_invoke env contract type method params network signature max_fee
           query_flag watch_mode \<sigma>
         = (Inr RNone,
            \<sigma>1\<lparr>loglines := loglines \<sigma>1 @
               [(ERROR, if str_contains MAX_FEE_ERROR (exn_message err)
                        then MsgStr MAX_FEE_HINT else MsgExn err)]\<rparr>)"
  using assms by (simp add: call_or_invoke_def dispatch_def logging_error_def)

theorem executor_failure_is_logged_witness:
  "resolve sample_env (Identifier ''token'') ''goerli'' sample_state = Inr (''0x07'', ''token.json'')
   \<and> execute_call sample_env
         \<lparr>arg_type = ''invoke'', arg_network = ''goerli'', arg_inputs = [''1''],
          arg_signature = None, arg_max_fee = None, arg_query_flag = None,
          arg_address = ''0x07'', arg_abi = ''token.json'', arg_method = ''transfer''\<rparr>
         sample_state
       = (Inl (Exn ''AssertionError'' ''max_fee must be bigger than 0.''), sample_state)
   \<and> call_or_invoke sample_env (Identifier ''token'') ''invoke'' ''transfer'' [''1''] ''goerli''
         None None None (Some ''track'') sample_state
       = (Inr RNone, \<lparr>loglines = [(ERROR, MsgStr MAX_FEE_HINT)], outside = ()\<rparr>)
   \<and> execute_call sample_env
         \<lparr>arg_type = ''call'', arg_network = ''goerli'', arg_inputs = [],
          arg_signature = None, arg_max_fee = None, arg_query_flag = None,
          arg_address = ''0x07'', arg_abi = ''token.json'', arg_method = ''broken''\<rparr>
         sample_state
       = (Inl (Exn ''KeyError'' ''broken''), sample_state)
   \<and> call_or_invoke sample_env (Identifier ''token'') ''call'' ''broken'' [] ''goerli''
         None None None None sample_state
       = (Inr RNone,
          \<lparr>loglines = [(ERROR, MsgExn (Exn ''KeyError'' ''broken''))], outside = ()\<rparr>)"
proof -
  have r: "resolve sample_env (Identifier ''token'') ''goerli'' sample_state
      = Inr (''0x07'', ''token.json'')"
    by (simp add: resolve_def sample_env_def next_item_def)
  have e1: "execute_call sample_env
         \<lparr>arg_type = ''invoke'', arg_network = ''goerli'', arg_inputs = [''1''],
          arg_signature = None, arg_max_fee = None, arg_query_flag = None,
          arg_address = ''0x07'', arg_abi = ''token.json'', arg_method = ''transfer''\<rparr>
         sample_state
       = (Inl (Exn ''AssertionError'' ''max_fee must be bigger than 0.''), sample_state)"
    by (simp add: sample_env_def)
  have e2: "execute_call sample_env
         \<lparr>arg_type = ''call'', arg_network = ''goerli'', arg_inputs = [],
          arg_signature = None, arg_max_fee = None, arg_query_flag = None,
          arg_address = ''0x07'', arg_abi = ''token.json'', arg_method = ''broken''\<rparr>
         sample_state
       = (Inl (Exn ''KeyError'' ''broken''), sample_state)"
    by (simp add: sample_env_def)
  have m1: "str_contains MAX_FEE_ERROR ''max_fee must be bigger than 0.''"
    by (simp add: MAX_FEE_ERROR_def)
  have m2: "\<not> str_contains MAX_FEE_ERROR ''broken''"
    by (simp add: MAX_FEE_ERROR_def)
  from executor_failure_is_logged [OF r e1, of "Some ''track''"]
  have c1: "call_or_invoke sample_env (Identifier ''token'') ''invoke'' ''transfer'' [''1''] ''goerli''
         None None None (Some ''track'') sample_state
       = (Inr RNone, \<lparr>loglines = [(ERROR, MsgStr MAX_FEE_HINT)], outside = ()\<rparr>)"
    using m1 by (simp add: sample_state_def)
  from executor_failure_is_logged [OF r e2, of None]
  have c2: "call_or_invoke sample_env (Identifier ''token'') ''call'' ''broken'' [] ''goerli''
         None None None None sample_state
       = (Inr RNone,
          \<lparr>loglines = [(ERROR, MsgExn (Exn ''KeyError'' ''broken''))], outside = ()\<rparr>)"
    using m2 by (simp add: sample_state_def)
  from r e1 c1 e2 c2 show ?thesis by (intro conjI)
qed

text \<open>
  C4: an \<open>Account\<close> instance gives its address and its ABI to the dispatch step
  directly; any other reference is looked up in the deployments and the first
  match is taken; when there is no match, or the lookup fails, the exception leaves
  the dispatcher with nothing logged and the executor not called, and it ends the
  commands \<open>call\<close> and \<open>invoke\<close> as well.
\<close>

theorem resolution_before_dispatch:
  "call_or_invoke env (AccountInstance a) type method params network signature max_fee
       query_flag watch_mode \<sigma>
     = dispatch env (address a) (abi_path a) type method params network signature max_fee
         query_flag watch_mode \<sigma>
   \<and> (deployments_load env c network \<sigma> = Inr (m # ms) \<longrightarrow>
        call_or_invoke env (Identifier c) type method params network signature max_fee
            query_flag watch_mode \<sigma>
          = dispatch env (fst m) (snd m) type method params network signature max_fee
              query_flag watch_mode \<sigma>)
   \<and> (deployments_load env c network \<sigma> = Inr [] \<longrightarrow>
        call_or_invoke env (Identifier c) type method params network signature max_fee
            query_flag watch_mode \<sigma>
          = (Inl (Exn ''RuntimeError'' ''coroutine raised StopIteration''), \<sigma>))
   \<and> (deployments_load env c network \<sigma> = Inl e \<longrightarrow>
        call_or_invoke env (Identifier c) type method params network signature max_fee
            query_flag watch_mode \<sigma>
          = (Inl (coroutine_raise e), \<sigma>))
   \<and> (deployments_load env c network \<sigma> = Inr [] \<longrightarrow>
        call env c method params network \<sigma>
          = (Inl (Exn ''RuntimeError'' ''coroutine raised StopIteration''), \<sigma>)
        \<and> invoke env c method params network max_fee \<sigma>
          = (Inl (Exn ''RuntimeError'' ''coroutine raised StopIteration''), \<sigma>))"
  by (simp add: call_or_invoke_def resolve_def next_item_def coroutine_raise_def
      call_def invoke_def split: prod.splits)

theorem resolution_before_dispatch_witness:
  "deployments_load sample_env ''token'' ''goerli'' sample_state
     = Inr [(''0x07'', ''token.json''), (''0x09'', ''old.json'')]
   \<and> call_or_invoke sample_env (Identifier ''token'') ''call'' ''balance'' [] ''goerli''
         None None None None sample_state
       = dispatch sample_env ''0x07'' ''token.json'' ''call'' ''balance'' [] ''goerli''
           None None None None sample_state
   \<and> deployments_load sample_env ''missing'' ''goerli'' sample_state = Inr []
   \<and> call_or_invoke sample_env (Identifier ''missing'') ''call'' ''balance'' [] ''goerli''
         None None None None sample_state
       = (Inl (Exn ''RuntimeError'' ''coroutine raised StopIteration''), sample_state)
   \<and> call sample_env ''missing'' ''balance'' [] ''goerli'' sample_state
       = (Inl (Exn ''RuntimeError'' ''coroutine raised StopIteration''), sample_state)
   \<and> invoke sample_env ''missing'' ''balance'' [] ''goerli'' None sample_state
       = (Inl (Exn ''RuntimeError'' ''coroutine raised StopIteration''), sample_state)
   \<and> deployments_load (sample_env\<lparr>deployments_load := \<lambda>c n \<sigma>. Inl (Exn ''OSError'' ''unreadable'')\<rparr>)
         ''token'' ''goerli'' sample_state = Inl (Exn ''OSError'' ''unreadable'')
   \<and> call_or_invoke (sample_env\<lparr>deployments_load := \<lambda>c n \<sigma>. Inl (Exn ''OSError'' ''unreadable'')\<rparr>)
         (Identifier ''token'') ''call'' ''balance'' [] ''goerli'' None None None None sample_state
       = (Inl (Exn ''OSError'' ''unreadable''), sample_state)"
proof -
  have l1: "deployments_load sample_env ''token'' ''goerli'' sample_state
     = Inr [(''0x07'', ''token.json''), (''0x09'', ''old.json'')]"
    by (simp add: sample_env_def)
  have l2: "deployments_load sample_env ''missing'' ''goerli'' sample_state = Inr []"
    by (simp add: sample_env_def)
  have l3: "deployments_load
         (sample_env\<lparr>deployments_load := \<lambda>c n \<sigma>. Inl (Exn ''OSError'' ''unreadable'')\<rparr>)
         ''token'' ''goerli'' sample_state = Inl (Exn ''OSError'' ''unreadable'')"
    by simp
  note t1 = resolution_before_dispatch [of sample_env _ "''call''" "''balance''" "[]" "''goerli''"
      None None None None sample_state "''token''" "(''0x07'', ''token.json'')" "[(''0x09'', ''old.json'')]"]
  note t2 = resolution_before_dispatch [of sample_env _ "''call''" "''balance''" "[]" "''goerli''"
      None None None None sample_state "''missing''"]
  note t3 = resolution_before_dispatch
      [of "sample_env\<lparr>deployments_load := \<lambda>c n \<sigma>. Inl (Exn ''OSError'' ''unreadable'')\<rparr>" _
        "''call''" "''balance''" "[]" "''goerli''" None None None None sample_state "''token''" _ _
        "Exn ''OSError'' ''unreadable''"]
  from t1 [THEN conjunct2, THEN conjunct1, rule_format, OF l1]
    t2 [THEN conjunct2, THEN conjunct2, THEN conjunct1, rule_format, OF l2]
    t2 [THEN conjunct2, THEN conjunct2, THEN conjunct2, THEN conjunct2, rule_format, OF l2]
    t3 [THEN conjunct2, THEN conjunct2, THEN conjunct2, THEN conjunct1, rule_format, OF l3]
    l1 l2 l3
  show ?thesis
    by (simp add: coroutine_raise_def)
qed

text \<open>
  The watch is taken when the type is not "call", the output is not empty, no query
  flag is set and a watch mode is set. Everywhere else the output is returned as it is.
\<close>

lemma dispatch_without_watch:
  assumes "execute_call env
           \<lparr>arg_type = type, arg_network = network, arg_inputs = params,
            arg_signature = signature, arg_max_fee = max_fee,
            arg_query_flag = query_flag, arg_address = addr, arg_abi = abi,
            arg_method = method\<rparr> \<sigma> = (Inr output, \<sigma>1)"
    and "type = ''call'' \<or> \<not> output_truthy output \<or> truthy query_flag \<or> \<not> truthy watch_mode"
  shows "fst (dispatch env addr abi type method params network signature max_fee query_flag
                watch_mode \<sigma>) = Inr (returned output)"
  using assms by (auto simp: dispatch_def Let_def)

lemma dispatch_watch_found:
  assumes "execute_call env
           \<lparr>arg_type = type, arg_network = network, arg_inputs = params,
            arg_signature = signature, arg_max_fee = max_fee,
            arg_query_flag = query_flag, arg_address = addr, arg_abi = abi,
            arg_method = method\<rparr> \<sigma> = (Inr (OutText s), \<sigma>1)"
    and "type \<noteq> ''call''" and "s \<noteq> []" and "\<not> truthy query_flag" and "truthy watch_mode"
    and "normalize_number env (get_transaction_hash (decimal_digit env) s) = Inr n"
    and "status env n network watch_mode (logging_info (MsgStr s) \<sigma>1) = (Inr st, \<sigma>3)"
  shows "dispatch env addr abi type method params network signature max_fee query_flag
           watch_mode \<sigma> = (Inr (RStatus st), \<sigma>3)"
  using assms
  by (simp add: dispatch_def Let_def output_truthy_def returned_def hash_of_output_def)

text \<open>
  C2: the watch of an invoke on an output that has no transaction hash. The type
  is "invoke", the output is not empty, no query flag is set and the watch mode is
  "track". The extraction gives \<open>None\<close>, and \<open>None\<close> is what \<open>normalize_number\<close>
  receives: whatever it, the status tracker and the table of digits are, the
  dispatcher raises or returns a status, and it does not return the output of the
  executor.
\<close>

theorem watch_without_hash:
  "get_transaction_hash nd ''Invoke transaction was sent.'' = None
   \<and> call_or_invoke (sample_env\<lparr>normalize_number := nn, status := track, decimal_digit := nd\<rparr>)
         (Identifier ''token'') ''invoke'' ''silent'' [] ''goerli'' None (Some ''1'') None
         (Some ''track'') sample_state
       = (case nn None of
            Inl e \<Rightarrow>
              (Inl (coroutine_raise e),
               logging_info (MsgStr ''Invoke transaction was sent.'') sample_state)
          | Inr n \<Rightarrow>
              (case track n ''goerli'' (Some ''track'')
                      (logging_info (MsgStr ''Invoke transaction was sent.'') sample_state) of
                 (Inl e, \<sigma>3) \<Rightarrow> (Inl (coroutine_raise e), \<sigma>3)
               | (Inr st, \<sigma>3) \<Rightarrow> (Inr (RStatus st), \<sigma>3)))
   \<and> fst (call_or_invoke (sample_env\<lparr>normalize_number := nn, status := track, decimal_digit := nd\<rparr>)
             (Identifier ''token'') ''invoke'' ''silent'' [] ''goerli'' None (Some ''1'') None
             (Some ''track'') sample_state)
       \<noteq> Inr (RStr ''Invoke transaction was sent.'')"
proof -
  have none: "get_transaction_hash nd ''Invoke transaction was sent.'' = None"
    by (simp add: match_here_def HASH_LABEL_def)
  have run: "call_or_invoke (sample_env\<lparr>normalize_number := nn, status := track, decimal_digit := nd\<rparr>)
         (Identifier ''token'') ''invoke'' ''silent'' [] ''goerli'' None (Some ''1'') None
         (Some ''track'') sample_state
       = (case nn None of
            Inl e \<Rightarrow>
              (Inl (coroutine_raise e),
               logging_info (MsgStr ''Invoke transaction was sent.'') sample_state)
          | Inr n \<Rightarrow>
              (case track n ''goerli'' (Some ''track'')
                      (logging_info (MsgStr ''Invoke transaction was sent.'') sample_state) of
                 (Inl e, \<sigma>3) \<Rightarrow> (Inl (coroutine_raise e), \<sigma>3)
               | (Inr st, \<sigma>3) \<Rightarrow> (Inr (RStatus st), \<sigma>3)))"
    by (simp add: call_or_invoke_def resolve_def next_item_def dispatch_def sample_env_def
        truthy_def Let_def output_truthy_def returned_def hash_of_output_def none
        del: get_transaction_hash.simps split: sum.splits)
  have "fst (call_or_invoke (sample_env\<lparr>normalize_number := nn, status := track, decimal_digit := nd\<rparr>)
             (Identifier ''token'') ''invoke'' ''silent'' [] ''goerli'' None (Some ''1'') None
             (Some ''track'') sample_state)
       \<noteq> Inr (RStr ''Invoke transaction was sent.'')"
    unfolding run by (simp split: sum.splits prod.splits)
  with none run show ?thesis by (intro conjI)
qed

text \<open>
  C3: the command \<open>invoke\<close> when the executor fails. The dispatcher logs the
  failure and returns \<open>None\<close>; the command then unpacks that \<open>None\<close> into an address
  and a hash, and the \<open>TypeError\<close> of the unpacking leaves the command.
\<close>

theorem invoke_raises_after_executor_failure:
  "invoke (env\<lparr>deployments_load := \<lambda>c n \<sigma>. Inr [m], execute_call := \<lambda>a \<sigma>. (Inl err, \<sigma>)\<rparr>)
       contract_name method params network max_fee \<sigma>
     = (Inl (Exn ''TypeError'' ''cannot unpack non-iterable NoneType object''),
        logging_error
          (if str_contains MAX_FEE_ERROR (exn_message err) then MsgStr MAX_FEE_HINT
           else MsgExn err) \<sigma>)"
  by (cases m)
    (simp add: invoke_def call_or_invoke_def resolve_def next_item_def dispatch_def unpack2_def
      coroutine_raise_def)

text \<open>
  The command \<open>call\<close> logs what the dispatcher returns and ends normally once the
  reference is resolved. The command \<open>invoke\<close> ends normally when the executor
  returns a pair, and raises on a text that is not exactly two characters long.
\<close>

lemma call_exits_normally:
  assumes "resolve env (Identifier contract_name) network \<sigma> = Inr (addr, abi)"
  shows "fst (call env contract_name method params network \<sigma>) = Inr ()"
  using assms
  by (simp add: call_def call_or_invoke_def dispatch_def truthy_def Let_def
      split: prod.splits sum.splits)

lemma invoke_returned:
  assumes "resolve env (Identifier contract_name) network \<sigma> = Inr (addr, abi)"
    and "execute_call env
           \<lparr>arg_type = ''invoke'', arg_network = network, arg_inputs = params,
            arg_signature = None, arg_max_fee = max_fee,
            arg_query_flag = None, arg_address = addr, arg_abi = abi,
            arg_method = method\<rparr> \<sigma> = (Inr output, \<sigma>1)"
  shows "call_or_invoke env (Identifier contract_name) ''invoke'' method params network
           None max_fee None None \<sigma>
         = (Inr (returned output),
            if output_truthy output then logging_info (MsgVal (returned output)) \<sigma>1 else \<sigma>1)"
  using assms by (simp add: call_or_invoke_def dispatch_def truthy_def Let_def)

lemma invoke_pair_exits_normally:
  assumes "resolve env (Identifier contract_name) network \<sigma> = Inr (addr, abi)"
    and "execute_call env
           \<lparr>arg_type = ''invoke'', arg_network = network, arg_inputs = params,
            arg_signature = None, arg_max_fee = max_fee,
            arg_query_flag = None, arg_address = addr, arg_abi = abi,
            arg_method = method\<rparr> \<sigma> = (Inr (OutTuple [a, tx]), \<sigma>1)"
  shows "invoke env contract_name method params network max_fee \<sigma>
         = (Inr (),
            logging_info (MsgStr (''Transaction hash: '' @ tx))
              (logging_info (MsgStr (''Contract address: '' @ a))
                 (logging_info (MsgStr ''Invoke transaction was sent.'')
                    (logging_info (MsgVal (RTuple [a, tx])) \<sigma>1))))"
  using invoke_returned [OF assms]
  by (simp add: invoke_def unpack2_def returned_def output_truthy_def)

lemma invoke_text_needs_two_characters:
  assumes "resolve env (Identifier contract_name) network \<sigma> = Inr (addr, abi)"
    and "execute_call env
           \<lparr>arg_type = ''invoke'', arg_network = network, arg_inputs = params,
            arg_signature = None, arg_max_fee = max_fee,
            arg_query_flag = None, arg_address = addr, arg_abi = abi,
            arg_method = method\<rparr> \<sigma> = (Inr (OutText s), \<sigma>1)"
    and "length (characters s) \<noteq> 2"
  shows "\<exists>e. fst (invoke env contract_name method params network max_fee \<sigma>) = Inl e"
proof -
  from assms(3) have "\<exists>e. unpack2 env (RStr s) = Inl e"
    by (cases "characters s") (auto simp: unpack2_def split: list.splits)
  then show ?thesis
    using invoke_returned [OF assms(1,2)]
    by (auto simp: invoke_def returned_def split: prod.splits sum.splits)
qed

section \<open>Responses and stringify\<close>

text \<open>
  C5: a response whose code equals the success code is returned unchanged; any
  other response makes the submission fail, and for the response \<open>{"code": "test"}\<close>
  the message of the failure contains "Transaction failed because:", a line break,
  the raw body \<open>{'code': 'test'}\<close> and a full stop.
\<close>

theorem gateway_response_classified:
  "(map_of r ''code'' = Some TRANSACTION_RECEIVED \<longrightarrow> get_gateway_response r = Inr r)
   \<and> (map_of r ''code'' \<noteq> Some TRANSACTION_RECEIVED
        \<longrightarrow> get_gateway_response r = Inl (transaction_rejected r))
   \<and> get_gateway_response [(''code'', ''test'')]
       = Inl (transaction_rejected [(''code'', ''test'')])
   \<and> str_contains
        (''Transaction failed because:'' @ [newline] @ ''{'' @ [squote] @ ''code'' @ [squote]
           @ '': '' @ [squote] @ ''test'' @ [squote] @ ''}.'')
        (exn_message (transaction_rejected [(''code'', ''test'')]))"
  by (simp add: get_gateway_response_def TRANSACTION_RECEIVED_def transaction_rejected_def
      repr_dict_def repr_str_def repr_char_def squote_def newline_def Let_def)

theorem gateway_response_classified_witness:
  "map_of [(''code'', ''TRANSACTION_RECEIVED''), (''result'', ''test'')] ''code''
     = Some TRANSACTION_RECEIVED
   \<and> get_gateway_response [(''code'', ''TRANSACTION_RECEIVED''), (''result'', ''test'')]
       = Inr [(''code'', ''TRANSACTION_RECEIVED''), (''result'', ''test'')]
   \<and> map_of [(''code'', ''test'')] ''code'' \<noteq> Some TRANSACTION_RECEIVED
   \<and> get_gateway_response [(''code'', ''test'')]
       = Inl (transaction_rejected [(''code'', ''test'')])"
  using gateway_response_classified [of "[(''code'', ''TRANSACTION_RECEIVED''), (''result'', ''test'')]"]
    gateway_response_classified [of "[(''code'', ''test'')]"]
  by (simp add: TRANSACTION_RECEIVED_def)




lemma str_int_digits:
  "str_int 1 = ''1''" "str_int 2 = ''2''" "str_int 3 = ''3''" "str_int 4 = ''4''"
  "str_int 5 = ''5''" "str_int 6 = ''6''" "str_int 7 = ''7''" "str_int 8 = ''8''"
  "str_int 9 = ''9''"
  by (simp_all add: str_int_def str_nat.simps)

lemma shape_stringify: "shape (stringify t) = shape t"
  by (induction t) simp_all

lemma leaves_stringify: "leaves (stringify t) = map str_int (leaves t)"
  by (induction t) (simp_all add: map_concat comp_def cong: map_cong)

lemma stringify_map: "stringify t = map_nested str_int t"
  by (induction t) simp_all

text \<open>
  C7: stringify keeps the nesting of a nested sequence of integers and turns every
  leaf, in order, into its string form; the four sequences of the tests give the
  four expected results.
\<close>

theorem stringify_keeps_nesting:
  "shape (stringify t) = shape t
   \<and> leaves (stringify t) = map str_int (leaves t)
   \<and> stringify t = map_nested str_int t
   \<and> stringify (Seq []) = Seq []
   \<and> stringify (Seq [Seq [Leaf 1, Leaf 2, Leaf 3]])
       = Seq [Seq [Leaf ''1'', Leaf ''2'', Leaf ''3'']]
   \<and> stringify (Seq [Seq [Leaf 1, Leaf 2, Leaf 3, Seq [Leaf 4, Leaf 5, Leaf 6]]])
       = Seq [Seq [Leaf ''1'', Leaf ''2'', Leaf ''3'', Seq [Leaf ''4'', Leaf ''5'', Leaf ''6'']]]
   \<and> stringify (Seq [Seq [Leaf 1, Leaf 2, Leaf 3,
                           Seq [Leaf 4, Leaf 5, Leaf 6, Seq [Leaf 7, Leaf 8, Leaf 9]]]])
       = Seq [Seq [Leaf ''1'', Leaf ''2'', Leaf ''3'',
                   Seq [Leaf ''4'', Leaf ''5'', Leaf ''6'',
                        Seq [Leaf ''7'', Leaf ''8'', Leaf ''9'']]]]"
  by (simp add: shape_stringify leaves_stringify stringify_map [symmetric] str_int_digits)

end
